theory Spec2Isabelle
  imports Complex_Main
begin

section \<open>Floating-point values\<close>

text \<open>
  The fields of \<open>EllipticCurve\<close> and every intermediate value of \<open>elliptic_curve.py\<close> and
  \<open>elliptic_curve1.1.py\<close> are floats (the ints \<open>-1\<close> and \<open>0\<close> that \<open>main\<close> passes give the
  same values as the floats). A float is a finite number, an infinity or nan; the
  two zeros are not told apart (they compare equal). A numpy complex128 is a pair of
  floats, real part first.
\<close>

datatype fl = Fin real | PInf | NInf | NaN

type_synonym cfl = "fl \<times> fl"

datatype error = ZeroDivisionError | OverflowError | ValueError

text \<open>
  The arithmetic itself is a parameter: what it returns depends on rounding and, for
  \<open>pow\<close> and \<open>exp\<close>, on the C library. Nothing is assumed of it unless a statement says
  so. \<open>lit\<close> is the float that a constant such as \<open>np.pi\<close> or \<open>0.1\<close> denotes; \<open>fpow\<close> is C's
  \<open>pow\<close> at a small whole exponent, infinite on overflow; the complex operations are
  numpy's, which warn and never raise.
\<close>

record arith =
  lit :: "real \<Rightarrow> fl"
  fadd :: "fl \<Rightarrow> fl \<Rightarrow> fl"
  fmul :: "fl \<Rightarrow> fl \<Rightarrow> fl"
  fdiv :: "fl \<Rightarrow> fl \<Rightarrow> fl"
  fpow :: "fl \<Rightarrow> nat \<Rightarrow> fl"
  fsqrt :: "fl \<Rightarrow> fl"
  cadd :: "cfl \<Rightarrow> cfl \<Rightarrow> cfl"
  csub :: "cfl \<Rightarrow> cfl \<Rightarrow> cfl"
  cmul :: "cfl \<Rightarrow> cfl \<Rightarrow> cfl"
  cdiv :: "cfl \<Rightarrow> cfl \<Rightarrow> cfl"
  cpow :: "cfl \<Rightarrow> nat \<Rightarrow> cfl"
  cexp :: "cfl \<Rightarrow> cfl"

text \<open>Comparisons with zero and negation are exact. \<open>x == 0\<close>, \<open>x >= 0\<close>, \<open>x < 0\<close>, \<open>-x\<close>:\<close>

fun is_zero :: "fl \<Rightarrow> bool" where
  "is_zero (Fin r) = (r = 0)"
| "is_zero _ = False"




fun is_finite :: "fl \<Rightarrow> bool" where
  "is_finite (Fin r) = True"
| "is_finite _ = False"

fun is_infinite :: "fl \<Rightarrow> bool" where
  "is_infinite PInf = True"
| "is_infinite NInf = True"
| "is_infinite _ = False"

text \<open>A float or an int taken as a numpy complex.\<close>

definition creal :: "fl \<Rightarrow> cfl" where
  "creal x = (x, Fin 0)"

text \<open>
  Python's \<open>**\<close> on a float raises OverflowError where the result of a finite base
  overflows; Python's \<open>/\<close> on a float raises ZeroDivisionError on a zero divisor.
\<close>

definition py_pow :: "arith \<Rightarrow> fl \<Rightarrow> nat \<Rightarrow> error + fl" where
  "py_pow ar x n =
     (let r = fpow ar x n
      in if is_finite x \<and> is_infinite r then Inl OverflowError else Inr r)"

definition py_div :: "arith \<Rightarrow> fl \<Rightarrow> fl \<Rightarrow> error + fl" where
  "py_div ar x y = (if is_zero y then Inl ZeroDivisionError else Inr (fdiv ar x y))"

section \<open>The curve\<close>

record EllipticCurve =
  a :: fl
  b :: fl

text \<open>What \<open>j_invariant\<close> returns: a float on the Weierstrass path, a numpy complex on the q-expansion path.\<close>

datatype jresult = JReal fl | JComplex cfl


text \<open>\<open>discriminant\<close> (both files, lines 67-71): \<open>-16 * (4 * self.a**3 + 27 * self.b**2)\<close>.\<close>

definition discriminant :: "arith \<Rightarrow> EllipticCurve \<Rightarrow> error + fl" where
  "discriminant ar self =
     (case py_pow ar (a self) 3 of
        Inl e \<Rightarrow> Inl e
      | Inr p \<Rightarrow>
          (case py_pow ar (b self) 2 of
             Inl e \<Rightarrow> Inl e
           | Inr r \<Rightarrow>
               Inr (fmul ar (Fin (- 16)) (fadd ar (fmul ar (Fin 4) p) (fmul ar (Fin 27) r)))))"


text \<open>
  \<open>j_invariant\<close> of \<open>elliptic_curve1.1.py\<close> (lines 73-94): with \<open>tau\<close> the q-expansion
  \<open>1/q + 744 + 196884*q + 21493760*q**2\<close> at \<open>q = np.exp(2 * np.pi * 1j * tau)\<close>, without
  it the Weierstrass form.
\<close>

definition j_invariant :: "arith \<Rightarrow> EllipticCurve \<Rightarrow> cfl option \<Rightarrow> error + jresult" where
  "j_invariant ar self tau =
     (case tau of
        Some t \<Rightarrow>
          (let q = cexp ar (cmul ar (cmul ar (creal (fmul ar (Fin 2) (lit ar pi))) (Fin 0, Fin 1)) t)
           in Inr (JComplex
                (cadd ar
                   (cadd ar
                      (cadd ar (cdiv ar (creal (Fin 1)) q) (creal (Fin 744)))
                      (cmul ar (creal (Fin 196884)) q))
                   (cmul ar (creal (Fin 21493760)) (cpow ar q 2)))))
      | None \<Rightarrow>
          (case discriminant ar self of
             Inl e \<Rightarrow> Inl e
           | Inr d \<Rightarrow>
               if is_zero d then Inr (JReal PInf)
               else (case py_pow ar (a self) 3 of
                       Inl e \<Rightarrow> Inl e
                     | Inr p \<Rightarrow>
                         (case py_div ar (fmul ar (Fin (- 1728)) (fmul ar (Fin 4) p)) d of
                            Inl e \<Rightarrow> Inl e
                          | Inr j \<Rightarrow> Inr (JReal j)))))"

text \<open>
  \<open>get_elliptic_curve_params\<close> (\<open>elliptic_curve1.1.py\<close>, lines 96-110). Every operation
  is numpy's on complex numbers; nothing in it raises.
\<close>

definition get_elliptic_curve_params :: "arith \<Rightarrow> cfl \<Rightarrow> error + (fl \<times> fl)" where
  "get_elliptic_curve_params ar tau =
     (let q = cexp ar (cmul ar (cmul ar (creal (fmul ar (Fin 2) (lit ar pi))) (Fin 0, Fin 1)) tau);
          E4 = cadd ar (cadd ar (creal (Fin 1)) (cmul ar (creal (Fin 240)) q))
                 (cmul ar (creal (Fin 2160)) (cpow ar q 2));
          E6 = csub ar (csub ar (creal (Fin 1)) (cmul ar (creal (Fin 504)) q))
                 (cmul ar (creal (Fin 16632)) (cpow ar q 2));
          a' = cdiv ar (cmul ar (creal (Fin (- 27))) E4) (cmul ar (creal (Fin 4)) E6);
          b' = cdiv ar (cmul ar (creal (Fin (- 27))) (csub ar (cpow ar E4 3) (cpow ar E6 2)))
                 (cmul ar (creal (Fin 4)) (cpow ar E6 2))
      in Inr (fst a', fst b'))"

section \<open>The field over the upper half-plane\<close>









section \<open>The update handler\<close>

text \<open>
  \<open>update_plot\<close> (\<open>elliptic_curve.py\<close> lines 167-188, \<open>elliptic_curve1.1.py\<close> lines
  232-253), as far as the model is concerned: the two assignments in the order of the
  source, each through Python's \<open>float\<close>, and the handler of ValueError, which prints.
  Python's \<open>float\<close> on a text is a parameter: \<open>None\<close> where it raises ValueError. The
  result is the curve after the call and what was printed.
\<close>

definition update_plot :: "(string \<Rightarrow> fl option) \<Rightarrow> string \<Rightarrow> string \<Rightarrow> EllipticCurve
    \<Rightarrow> EllipticCurve \<times> string option" where
  "update_plot float_py text_a text_b self =
     (case float_py text_a of
        None \<Rightarrow> (self, Some ''Please enter valid numbers'')
      | Some va \<Rightarrow>
          (let self1 = self\<lparr>a := va\<rparr>
           in case float_py text_b of
                None \<Rightarrow> (self1, Some ''Please enter valid numbers'')
              | Some vb \<Rightarrow> (self1\<lparr>b := vb\<rparr>, None)))"

section \<open>Arithmetics\<close>

text \<open>
  A property that IEEE arithmetic has: an operation on whole numbers of at most 53 bits
  whose exact result is such a number returns it.
\<close>

definition is_int53 :: "real \<Rightarrow> bool" where
  "is_int53 r = (r \<in> \<int> \<and> \<bar>r\<bar> \<le> 2 ^ 53)"

definition exact_on_ints :: "arith \<Rightarrow> bool" where
  "exact_on_ints ar =
     ((\<forall>x y. is_int53 x \<and> is_int53 y \<and> is_int53 (x + y) \<longrightarrow> fadd ar (Fin x) (Fin y) = Fin (x + y))
      \<and> (\<forall>x y. is_int53 x \<and> is_int53 y \<and> is_int53 (x * y) \<longrightarrow> fmul ar (Fin x) (Fin y) = Fin (x * y))
      \<and> (\<forall>x y. is_int53 x \<and> is_int53 y \<and> y \<noteq> 0 \<and> is_int53 (x / y)
            \<longrightarrow> fdiv ar (Fin x) (Fin y) = Fin (x / y))
      \<and> (\<forall>x n. is_int53 x \<and> is_int53 (x ^ n) \<longrightarrow> fpow ar (Fin x) n = Fin (x ^ n))
      \<and> (\<forall>x. is_int53 x \<and> is_int53 (x ^ 2) \<longrightarrow> fsqrt ar (Fin (x ^ 2)) = Fin \<bar>x\<bar>))"

text \<open>
  An arithmetic without rounding, for evaluating the program at a given input: a result
  is the exact one, or infinite beyond the range of a double. It agrees with IEEE
  arithmetic wherever the floating-point results are exact, as they are at the inputs of
  the counterexamples below, and differs from it by the rounding elsewhere. Where IEEE
  arithmetic would work on an infinity or a nan, or divide by zero, it gives nan; no
  statement below evaluates it there.
\<close>

definition fin :: "real \<Rightarrow> fl" where
  "fin r = (if \<bar>r\<bar> < 2 ^ 1024 then Fin r else if 0 < r then PInf else NInf)"

definition cfin :: "complex \<Rightarrow> cfl" where
  "cfin z = (fin (Re z), fin (Im z))"

fun lift2 :: "(real \<Rightarrow> real \<Rightarrow> real) \<Rightarrow> fl \<Rightarrow> fl \<Rightarrow> fl" where
  "lift2 f (Fin x) (Fin y) = fin (f x y)"
| "lift2 f _ _ = NaN"

fun clift2 :: "(complex \<Rightarrow> complex \<Rightarrow> complex) \<Rightarrow> cfl \<Rightarrow> cfl \<Rightarrow> cfl" where
  "clift2 f (Fin x, Fin y) (Fin u, Fin v) = cfin (f (Complex x y) (Complex u v))"
| "clift2 f _ _ = (NaN, NaN)"

fun clift1 :: "(complex \<Rightarrow> complex) \<Rightarrow> cfl \<Rightarrow> cfl" where
  "clift1 f (Fin x, Fin y) = cfin (f (Complex x y))"
| "clift1 f _ = (NaN, NaN)"

fun exact_sqrt :: "fl \<Rightarrow> fl" where
  "exact_sqrt (Fin x) = (if x \<ge> 0 then Fin (sqrt x) else NaN)"
| "exact_sqrt PInf = PInf"
| "exact_sqrt _ = NaN"

fun exact_pow :: "fl \<Rightarrow> nat \<Rightarrow> fl" where
  "exact_pow (Fin x) n = fin (x ^ n)"
| "exact_pow _ n = NaN"

definition exact_arith :: arith where
  "exact_arith =
     \<lparr>lit = Fin,
      fadd = lift2 (+),
      fmul = lift2 (*),
      fdiv = (\<lambda>x y. if is_zero y then NaN else lift2 (/) x y),
      fpow = exact_pow,
      fsqrt = exact_sqrt,
      cadd = clift2 (+),
      csub = clift2 (-),
      cmul = clift2 (*),
      cdiv = (\<lambda>z w. if w = (Fin 0, Fin 0) then (NaN, NaN) else clift2 (/) z w),
      cpow = (\<lambda>z n. clift1 (\<lambda>c. c ^ n) z),
      cexp = clift1 exp\<rparr>"

text \<open>A table standing for Python's \<open>float\<close> on the texts \<open>2\<close> and \<open>abc\<close>.\<close>

definition float_table :: "string \<Rightarrow> fl option" where
  "float_table t = (if t = ''2'' then Some (Fin 2) else None)"

section \<open>Facts about the arithmetics\<close>

lemma fin_small: "\<bar>r\<bar> \<le> 2 ^ 53 \<Longrightarrow> fin r = Fin r"
proof -
  assume "\<bar>r\<bar> \<le> 2 ^ 53"
  moreover have "(2::real) ^ 53 < 2 ^ 1024" by (rule power_strict_increasing) simp_all
  ultimately show ?thesis by (simp add: fin_def)
qed






lemma exact_pow:
  "exact_on_ints ar \<Longrightarrow> is_int53 x \<Longrightarrow> is_int53 (x ^ n)
   \<Longrightarrow> fpow ar (Fin x) n = Fin (x ^ n)"
  by (simp add: exact_on_ints_def)

lemma exact_sqrt:
  "exact_on_ints ar \<Longrightarrow> is_int53 x \<Longrightarrow> is_int53 (x ^ 2)
   \<Longrightarrow> fsqrt ar (Fin (x ^ 2)) = Fin \<bar>x\<bar>"
  by (simp add: exact_on_ints_def)



section \<open>The Weierstrass path\<close>








section \<open>Real points of the curve\<close>



section \<open>The q-expansion path\<close>

text \<open>
  C10: with \<open>tau\<close> supplied, the result of \<open>j_invariant\<close> depends on \<open>tau\<close> alone: any two
  curves give the same value.
\<close>

theorem j_invariant_state_independent:
  "j_invariant ar c1 (Some t) = j_invariant ar c2 (Some t)"
  by (simp add: j_invariant_def)



section \<open>From the modular parameter to the coefficients\<close>


lemma get_elliptic_curve_params_total:
  "\<exists>av bv. get_elliptic_curve_params ar tau = Inr (av, bv)"
  by (simp add: get_elliptic_curve_params_def Let_def)



section \<open>Rejected input\<close>

text \<open>
  C7: the update is not rejected as a whole. When the text for \<open>a\<close> is a number and the
  text for \<open>b\<close> is not, \<open>update_plot\<close> has already stored the new \<open>a\<close> when \<open>float\<close>
  raises on \<open>b\<close>: the curve is left with the new \<open>a\<close> and the old \<open>b\<close>, and the message is
  printed.
\<close>

theorem update_plot_partial:
  "float_py text_a = Some va \<Longrightarrow> float_py text_b = None \<Longrightarrow>
   update_plot float_py text_a text_b c = (c\<lparr>a := va\<rparr>, Some ''Please enter valid numbers'')"
  by (simp add: update_plot_def)

theorem update_plot_partial_witness:
  "update_plot float_table ''2'' ''abc'' \<lparr>a = Fin (- 1), b = Fin 0\<rparr>
     = (\<lparr>a = Fin 2, b = Fin 0\<rparr>, Some ''Please enter valid numbers'')"
  using update_plot_partial [of float_table "''2''" "Fin 2" "''abc''" "\<lparr>a = Fin (- 1), b = Fin 0\<rparr>"]
  by (simp add: float_table_def)

section \<open>The grid of the field\<close>




















section \<open>The two paths at \<open>tau = 2i\<close>\<close>

lemma exp_12_lower: "5000 < exp (12::real)"
proof -
  have "17 / 2 \<le> exp (3::real)"
    using exp_lower_Taylor_quadratic [of "3::real"] by simp
  then have "(17 / 2) ^ 4 \<le> exp (3::real) ^ 4"
    by (rule power_mono) simp
  moreover have "exp (3::real) ^ 4 = exp 12"
    using exp_of_nat_mult [of 4 "3::real"] by simp
  moreover have "(17 / 2) ^ 4 = (83521 / 16 :: real)"
    by (simp add: power_divide)
  ultimately show ?thesis by simp
qed

lemma pi_ge_three: "3 \<le> pi"
proof -
  have "sin (pi / 6) \<le> pi / 6" by (rule sin_x_le_x) simp
  then show ?thesis by (simp add: sin_30)
qed

lemma q_2i_bounds: "0 < exp (- (4 * pi)) \<and> exp (- (4 * pi)) < 1 / 5000"
proof -
  have "exp 12 \<le> exp (4 * pi)" using pi_ge_three by simp
  then have "5000 < exp (4 * pi)" using exp_12_lower by linarith
  then have "1 / exp (4 * pi) < 1 / 5000"
    by (simp add: field_simps)
  then show ?thesis by (simp add: exp_minus field_simps)
qed

lemma series_bounds:
  fixes r :: real
  assumes "0 < r" "r < 1 / 5000"
  shows "1 \<le> 1 + 240 * r + 2160 * r ^ 2" "1 + 240 * r + 2160 * r ^ 2 \<le> 21 / 20"
        "89 / 100 \<le> 1 - 504 * r - 16632 * r ^ 2" "1 - 504 * r - 16632 * r ^ 2 \<le> 1"
proof -
  have r2: "r ^ 2 \<le> r * (1 / 5000)"
    unfolding power2_eq_square using assms by (intro mult_left_mono) simp_all
  have r2p: "0 \<le> r ^ 2" by simp
  show "1 \<le> 1 + 240 * r + 2160 * r ^ 2" using assms r2p by linarith
  show "1 + 240 * r + 2160 * r ^ 2 \<le> 21 / 20" using assms r2 by linarith
  show "89 / 100 \<le> 1 - 504 * r - 16632 * r ^ 2" using assms r2 by linarith
  show "1 - 504 * r - 16632 * r ^ 2 \<le> 1" using assms r2p by linarith
qed

lemma weierstrass_j_bound:
  fixes E4 E6 :: real
  assumes e4: "1 \<le> E4" "E4 \<le> 21 / 20" and e6: "89 / 100 \<le> E6" "E6 \<le> 1"
  defines "av \<equiv> - 27 * E4 / (4 * E6)"
  defines "bv \<equiv> - 27 * (E4 ^ 3 - E6 ^ 2) / (4 * E6 ^ 2)"
  shows "- 16 * (4 * av ^ 3 + 27 * bv ^ 2) \<noteq> 0"
    and "- 1728 * (4 * av ^ 3) / (- 16 * (4 * av ^ 3 + 27 * bv ^ 2)) < 150"
    and "108 \<le> - 1728 * (4 * av ^ 3) / (- 16 * (4 * av ^ 3 + 27 * bv ^ 2))"
proof -
  define u where "u = 27 * E4 / (4 * E6)"
  define D where "D = E4 ^ 3 - E6 ^ 2"
  define w where "w = 27 * D / (4 * E6 ^ 2)"
  have av: "av = - u" by (simp add: av_def u_def)
  have bv: "bv = - w" by (simp add: bv_def w_def D_def minus_divide_left)
  have "1 \<le> E4 / E6" using e4 e6 by (simp add: field_simps)
  then have "27 / 4 * 1 \<le> 27 / 4 * (E4 / E6)" by (intro mult_left_mono) simp_all
  then have u: "27 / 4 \<le> u" by (simp add: u_def)
  then have "(27 / 4) ^ 3 \<le> u ^ 3" by (intro power_mono) simp_all
  then have X: "19683 / 16 \<le> 4 * u ^ 3" by (simp add: power3_eq_cube)
  have "E4 ^ 3 \<le> (21 / 20) ^ 3" using e4 by (intro power_mono) simp_all
  then have E43: "E4 ^ 3 \<le> 9261 / 8000" by (simp add: power3_eq_cube)
  have "1 ^ 3 \<le> E4 ^ 3" using e4 by (intro power_mono) simp_all
  then have E43l: "1 \<le> E4 ^ 3" by simp
  have "(89 / 100) ^ 2 \<le> E6 ^ 2" using e6 by (intro power_mono) simp_all
  then have E62: "7921 / 10000 \<le> E6 ^ 2" by (simp add: power2_eq_square)
  have "E6 ^ 2 \<le> 1 ^ 2" using e6 by (intro power_mono) simp_all
  then have E62u: "E6 ^ 2 \<le> 1" by simp
  have D0: "0 \<le> D" and D1: "D \<le> 37 / 100"
    using E43 E43l E62 E62u by (simp_all add: D_def)
  have den: "3 \<le> 4 * E6 ^ 2" using E62 by simp
  have "D / (4 * E6 ^ 2) \<le> (37 / 100) / 3"
    using D0 D1 den by (intro frac_le) simp_all
  then have w1: "w \<le> 333 / 100" by (simp add: w_def)
  have w0: "0 \<le> w" using D0 den by (simp add: w_def)
  have "w ^ 2 \<le> (333 / 100) ^ 2" using w0 w1 by (intro power_mono) simp_all
  then have Y: "27 * w ^ 2 \<le> 300" by (simp add: power2_eq_square)
  have Y0: "0 \<le> 27 * w ^ 2" by simp
  define X where "X = 4 * u ^ 3"
  define Y where "Y = 27 * w ^ 2"
  have XY: "19683 / 16 \<le> X" "Y \<le> 300" "0 \<le> Y"
    using X Y Y0 by (simp_all add: X_def Y_def)
  have e1: "4 * av ^ 3 = - X" by (simp add: av X_def)
  have e2: "27 * bv ^ 2 = Y" by (simp add: bv Y_def)
  have pos: "0 < X - Y" using XY by linarith
  have disc: "- 16 * (4 * av ^ 3 + 27 * bv ^ 2) = 16 * (X - Y)"
    by (simp add: e1 e2)
  show "- 16 * (4 * av ^ 3 + 27 * bv ^ 2) \<noteq> 0"
    unfolding disc using pos by simp
  have j: "- 1728 * (4 * av ^ 3) / (- 16 * (4 * av ^ 3 + 27 * bv ^ 2)) = 108 * X / (X - Y)"
  proof -
    have n1: "- 16 * (- X + Y) \<noteq> 0" and n2: "X - Y \<noteq> 0" using pos by simp_all
    have "- 1728 * - X / (- 16 * (- X + Y)) = 108 * X / (X - Y)"
      unfolding frac_eq_eq [OF n1 n2] by (simp add: algebra_simps)
    then show ?thesis by (simp only: e1 e2)
  qed
  have "108 * X < 150 * (X - Y)" using XY by (simp add: algebra_simps)
  then have "108 * X / (X - Y) < 150" using pos by (simp add: pos_divide_less_eq)
  then show "- 1728 * (4 * av ^ 3) / (- 16 * (4 * av ^ 3 + 27 * bv ^ 2)) < 150"
    by (simp only: j)
  have "108 * (X - Y) \<le> 108 * X" using XY by (simp add: algebra_simps)
  then have "108 \<le> 108 * X / (X - Y)" using pos by (simp add: pos_le_divide_eq)
  then show "108 \<le> - 1728 * (4 * av ^ 3) / (- 16 * (4 * av ^ 3 + 27 * bv ^ 2))"
    by (simp only: j)
qed

lemma fin_bounds: "- 1000000000 \<le> r \<Longrightarrow> r \<le> 1000000000 \<Longrightarrow> fin r = Fin r"
  by (rule fin_small) (simp add: abs_le_iff)

lemma exact_real_ops:
  shows exact_fadd: "- 1000000000 \<le> x + y \<Longrightarrow> x + y \<le> 1000000000
          \<Longrightarrow> fadd exact_arith (Fin x) (Fin y) = Fin (x + y)"
    and exact_fmul: "- 1000000000 \<le> x * y \<Longrightarrow> x * y \<le> 1000000000
          \<Longrightarrow> fmul exact_arith (Fin x) (Fin y) = Fin (x * y)"
    and exact_fdiv: "y \<noteq> 0 \<Longrightarrow> - 1000000000 \<le> x / y \<Longrightarrow> x / y \<le> 1000000000
          \<Longrightarrow> fdiv exact_arith (Fin x) (Fin y) = Fin (x / y)"
    and exact_fpow: "- 1000000000 \<le> x ^ n \<Longrightarrow> x ^ n \<le> 1000000000
          \<Longrightarrow> fpow exact_arith (Fin x) n = Fin (x ^ n)"
  by (simp_all add: exact_arith_def fin_bounds)

lemma Complex_real_power: "Complex x 0 ^ n = Complex (x ^ n) 0"
  by (induction n) (simp_all add: complex_eq_iff)

lemma exact_complex_ops:
  shows exact_cadd: "- 1000000000 \<le> x + y \<Longrightarrow> x + y \<le> 1000000000
          \<Longrightarrow> cadd exact_arith (Fin x, Fin 0) (Fin y, Fin 0) = (Fin (x + y), Fin 0)"
    and exact_csub: "- 1000000000 \<le> x - y \<Longrightarrow> x - y \<le> 1000000000
          \<Longrightarrow> csub exact_arith (Fin x, Fin 0) (Fin y, Fin 0) = (Fin (x - y), Fin 0)"
    and exact_cmul: "- 1000000000 \<le> x * y \<Longrightarrow> x * y \<le> 1000000000
          \<Longrightarrow> cmul exact_arith (Fin x, Fin 0) (Fin y, Fin 0) = (Fin (x * y), Fin 0)"
    and exact_cdiv: "y \<noteq> 0 \<Longrightarrow> - 1000000000 \<le> x / y \<Longrightarrow> x / y \<le> 1000000000
          \<Longrightarrow> cdiv exact_arith (Fin x, Fin 0) (Fin y, Fin 0) = (Fin (x / y), Fin 0)"
    and exact_cpow: "- 1000000000 \<le> x ^ n \<Longrightarrow> x ^ n \<le> 1000000000
          \<Longrightarrow> cpow exact_arith (Fin x, Fin 0) n = (Fin (x ^ n), Fin 0)"
  by (simp_all add: exact_arith_def cfin_def fin_bounds Complex_real_power Re_divide Im_divide
      power2_eq_square)

lemma exp_16_upper: "exp (16::real) \<le> 3 ^ 16"
proof -
  have "exp (1::real) \<le> 3" by (rule exp_le)
  then have "exp (1::real) ^ 16 \<le> 3 ^ 16" by (intro power_mono) simp_all
  moreover have "exp (1::real) ^ 16 = exp 16"
    using exp_of_nat_mult [of 16 "1::real"] by simp
  ultimately show ?thesis by simp
qed

lemma q_2i_lower: "1 / exp (- (4 * pi)) \<le> 3 ^ 16"
proof -
  have "exp (4 * pi) \<le> exp 16" using pi_less_4 by simp
  then have "exp (4 * pi) \<le> 3 ^ 16" using exp_16_upper by linarith
  moreover have "1 / exp (- (4 * pi)) = exp (4 * pi)" by (simp add: exp_minus inverse_eq_divide)
  ultimately show ?thesis by (simp only:)
qed

lemma q_2i:
  "cexp exact_arith (cmul exact_arith (cmul exact_arith
       (creal (fmul exact_arith (Fin 2) (lit exact_arith pi))) (Fin 0, Fin 1)) (Fin 0, Fin 2))
   = (Fin (exp (- (4 * pi))), Fin 0)"
proof -
  have p: "\<bar>2 * pi\<bar> \<le> 2 ^ 53" "\<bar>4 * pi\<bar> \<le> 2 ^ 53"
    using pi_less_4 pi_gt_zero by simp_all
  have r: "\<bar>exp (- (4 * pi))\<bar> \<le> 2 ^ 53"
    using q_2i_bounds by simp
  have e: "exp (Complex (- (4 * pi)) 0) = Complex (exp (- (4 * pi))) 0"
    by (simp add: complex_eq_iff Re_exp Im_exp)
  show ?thesis
    using p r by (simp add: exact_arith_def creal_def cfin_def fin_small e)
qed

lemma coefficient_bounds:
  fixes E4 E6 :: real
  assumes e4: "1 \<le> E4" "E4 \<le> 21 / 20" and e6: "89 / 100 \<le> E6" "E6 \<le> 1"
  shows "1 \<le> E4 ^ 3" "E4 ^ 3 \<le> 9261 / 8000" "7921 / 10000 \<le> E6 ^ 2" "E6 ^ 2 \<le> 1"
    and "- 8 \<le> - 27 * E4 / (4 * E6)" "- 27 * E4 / (4 * E6) \<le> - (27 / 4)"
    and "- (333 / 100) \<le> - 27 * (E4 ^ 3 - E6 ^ 2) / (4 * E6 ^ 2)"
        "- 27 * (E4 ^ 3 - E6 ^ 2) / (4 * E6 ^ 2) \<le> 0"
proof -
  have "E4 ^ 3 \<le> (21 / 20) ^ 3" using e4 by (intro power_mono) simp_all
  then show E43: "E4 ^ 3 \<le> 9261 / 8000" by (simp add: power3_eq_cube)
  have "1 ^ 3 \<le> E4 ^ 3" using e4 by (intro power_mono) simp_all
  then show E43l: "1 \<le> E4 ^ 3" by simp
  have "(89 / 100) ^ 2 \<le> E6 ^ 2" using e6 by (intro power_mono) simp_all
  then show E62: "7921 / 10000 \<le> E6 ^ 2" by (simp add: power2_eq_square)
  have "E6 ^ 2 \<le> 1 ^ 2" using e6 by (intro power_mono) simp_all
  then show E62u: "E6 ^ 2 \<le> 1" by simp
  have "27 * E4 / (4 * E6) \<le> (27 * (21 / 20)) / (4 * (89 / 100))"
    using e4 e6 by (intro frac_le) simp_all
  then have "27 * E4 / (4 * E6) \<le> 8" by simp
  then show "- 8 \<le> - 27 * E4 / (4 * E6)" by simp
  have "1 \<le> E4 / E6" using e4 e6 by (simp add: field_simps)
  then have "27 / 4 * 1 \<le> 27 / 4 * (E4 / E6)" by (intro mult_left_mono) simp_all
  then show "- 27 * E4 / (4 * E6) \<le> - (27 / 4)" by simp
  define D where "D = E4 ^ 3 - E6 ^ 2"
  have D0: "0 \<le> D" and D1: "D \<le> 37 / 100"
    using E43 E43l E62 E62u by (simp_all add: D_def)
  have den: "3 \<le> 4 * E6 ^ 2" using E62 by simp
  have "D / (4 * E6 ^ 2) \<le> (37 / 100) / 3"
    using D0 D1 den by (intro frac_le) simp_all
  then have w1: "27 * D / (4 * E6 ^ 2) \<le> 333 / 100" by simp
  have eq: "- 27 * (E4 ^ 3 - E6 ^ 2) / (4 * E6 ^ 2) = - (27 * D / (4 * E6 ^ 2))"
    by (simp add: D_def minus_divide_left)
  show "- (333 / 100) \<le> - 27 * (E4 ^ 3 - E6 ^ 2) / (4 * E6 ^ 2)"
    unfolding eq using w1 by linarith
  have w0: "0 \<le> 27 * D / (4 * E6 ^ 2)" using D0 den by simp
  show "- 27 * (E4 ^ 3 - E6 ^ 2) / (4 * E6 ^ 2) \<le> 0"
    unfolding eq using w0 by linarith
qed

text \<open>
  C9: at \<open>tau = 2i\<close> the two paths do not agree. In arithmetic without rounding, the
  q-expansion gives a real value above 5000; the coefficients that
  \<open>get_elliptic_curve_params\<close> returns are finite, and the Weierstrass path on them gives a
  value between 108 and 150.
\<close>

theorem round_trip_at_2i:
  "\<exists>zr av bv jw.
      j_invariant exact_arith c (Some (Fin 0, Fin 2)) = Inr (JComplex (Fin zr, Fin 0))
      \<and> 5000 < zr
      \<and> get_elliptic_curve_params exact_arith (Fin 0, Fin 2) = Inr (Fin av, Fin bv)
      \<and> j_invariant exact_arith \<lparr>a = Fin av, b = Fin bv\<rparr> None = Inr (JReal (Fin jw))
      \<and> 108 \<le> jw \<and> jw < 150"
proof -
  define r where "r = exp (- (4 * pi))"
  define r2 where "r2 = r ^ 2"
  define rinv where "rinv = 1 / r"
  define E4 where "E4 = 1 + 240 * r + 2160 * r2"
  define E6 where "E6 = 1 - 504 * r - 16632 * r2"
  define c4 where "c4 = E4 ^ 3"
  define c6 where "c6 = E6 ^ 2"
  define av where "av = - 27 * E4 / (4 * E6)"
  define bv where "bv = - 27 * (c4 - c6) / (4 * c6)"
  define zr where "zr = rinv + 744 + 196884 * r + 21493760 * r2"
  have r: "0 < r" "r < 1 / 5000" using q_2i_bounds by (simp_all add: r_def)
  have ri: "rinv \<le> 43046721" "5000 < rinv"
    using q_2i_lower r by (simp_all add: r_def rinv_def field_simps)
  have "r ^ 2 \<le> 1 ^ 2" using r by (intro power_mono) simp_all
  then have rr: "0 \<le> r2" "r2 \<le> 1" by (simp_all add: r2_def)
  have e: "1 \<le> E4" "E4 \<le> 21 / 20" "89 / 100 \<le> E6" "E6 \<le> 1"
    using series_bounds [OF r] by (simp_all add: E4_def E6_def r2_def)
  note cb = coefficient_bounds [OF e]
  have c: "1 \<le> c4" "c4 \<le> 9261 / 8000" "7921 / 10000 \<le> c6" "c6 \<le> 1"
    using cb(1-4) by (simp_all only: c4_def c6_def)
  have ab: "- 8 \<le> av" "av \<le> - (27 / 4)" "- (333 / 100) \<le> bv" "bv \<le> 0"
    using cb(5-8) by (simp_all only: av_def bv_def c4_def c6_def)
  note bnds = r ri rr e c ab
  \<comment> \<open>the complex operations, one by one\<close>
  have q2: "cpow exact_arith (Fin r, Fin 0) 2 = (Fin r2, Fin 0)"
    unfolding r2_def using rr [unfolded r2_def] by (intro exact_cpow; linarith)
  have m1: "cmul exact_arith (Fin 240, Fin 0) (Fin r, Fin 0) = (Fin (240 * r), Fin 0)"
    using bnds by (intro exact_cmul; simp)
  have a1: "cadd exact_arith (Fin 1, Fin 0) (Fin (240 * r), Fin 0) = (Fin (1 + 240 * r), Fin 0)"
    using bnds by (intro exact_cadd; simp)
  have m2: "cmul exact_arith (Fin 2160, Fin 0) (Fin r2, Fin 0) = (Fin (2160 * r2), Fin 0)"
    using bnds by (intro exact_cmul; simp)
  have s4: "cadd exact_arith (Fin (1 + 240 * r), Fin 0) (Fin (2160 * r2), Fin 0) = (Fin E4, Fin 0)"
    unfolding E4_def using bnds by (intro exact_cadd; simp)
  have n1: "cmul exact_arith (Fin 504, Fin 0) (Fin r, Fin 0) = (Fin (504 * r), Fin 0)"
    using bnds by (intro exact_cmul; simp)
  have b1: "csub exact_arith (Fin 1, Fin 0) (Fin (504 * r), Fin 0) = (Fin (1 - 504 * r), Fin 0)"
    using bnds by (intro exact_csub; simp)
  have n2: "cmul exact_arith (Fin 16632, Fin 0) (Fin r2, Fin 0) = (Fin (16632 * r2), Fin 0)"
    using bnds by (intro exact_cmul; simp)
  have s6: "csub exact_arith (Fin (1 - 504 * r), Fin 0) (Fin (16632 * r2), Fin 0) = (Fin E6, Fin 0)"
    unfolding E6_def using bnds by (intro exact_csub; simp)
  have na: "cmul exact_arith (Fin (- 27), Fin 0) (Fin E4, Fin 0) = (Fin (- 27 * E4), Fin 0)"
    using bnds by (intro exact_cmul; simp)
  have da: "cmul exact_arith (Fin 4, Fin 0) (Fin E6, Fin 0) = (Fin (4 * E6), Fin 0)"
    using bnds by (intro exact_cmul; simp)
  have qa: "cdiv exact_arith (Fin (- 27 * E4), Fin 0) (Fin (4 * E6), Fin 0) = (Fin av, Fin 0)"
    unfolding av_def using e ab [unfolded av_def] by (intro exact_cdiv; (linarith | simp))
  have p4: "cpow exact_arith (Fin E4, Fin 0) 3 = (Fin c4, Fin 0)"
    unfolding c4_def using c [unfolded c4_def] by (intro exact_cpow; linarith)
  have p6: "cpow exact_arith (Fin E6, Fin 0) 2 = (Fin c6, Fin 0)"
    unfolding c6_def using c [unfolded c6_def] by (intro exact_cpow; linarith)
  have sb: "csub exact_arith (Fin c4, Fin 0) (Fin c6, Fin 0) = (Fin (c4 - c6), Fin 0)"
    using bnds by (intro exact_csub; simp)
  have nb: "cmul exact_arith (Fin (- 27), Fin 0) (Fin (c4 - c6), Fin 0)
            = (Fin (- 27 * (c4 - c6)), Fin 0)"
    using bnds by (intro exact_cmul; simp)
  have db: "cmul exact_arith (Fin 4, Fin 0) (Fin c6, Fin 0) = (Fin (4 * c6), Fin 0)"
    using bnds by (intro exact_cmul; simp)
  have qb: "cdiv exact_arith (Fin (- 27 * (c4 - c6)), Fin 0) (Fin (4 * c6), Fin 0)
            = (Fin bv, Fin 0)"
    unfolding bv_def using c ab [unfolded bv_def] by (intro exact_cdiv; (linarith | simp))
  have params: "get_elliptic_curve_params exact_arith (Fin 0, Fin 2) = Inr (Fin av, Fin bv)"
    unfolding get_elliptic_curve_params_def Let_def creal_def q_2i [unfolded creal_def] r_def [symmetric]
    by (simp only: q2 m1 a1 m2 s4 n1 b1 n2 s6 na da qa p4 p6 sb nb db qb fst_conv)
  \<comment> \<open>the q-expansion\<close>
  have i1: "cdiv exact_arith (Fin 1, Fin 0) (Fin r, Fin 0) = (Fin rinv, Fin 0)"
    unfolding rinv_def using r ri [unfolded rinv_def] by (intro exact_cdiv; (linarith | simp))
  have i2: "cadd exact_arith (Fin rinv, Fin 0) (Fin 744, Fin 0) = (Fin (rinv + 744), Fin 0)"
    using bnds by (intro exact_cadd; simp)
  have m3: "cmul exact_arith (Fin 196884, Fin 0) (Fin r, Fin 0) = (Fin (196884 * r), Fin 0)"
    using bnds by (intro exact_cmul; simp)
  have i3: "cadd exact_arith (Fin (rinv + 744), Fin 0) (Fin (196884 * r), Fin 0)
            = (Fin (rinv + 744 + 196884 * r), Fin 0)"
    using bnds by (intro exact_cadd; simp)
  have m4: "cmul exact_arith (Fin 21493760, Fin 0) (Fin r2, Fin 0)
            = (Fin (21493760 * r2), Fin 0)"
    using bnds by (intro exact_cmul; simp)
  have i4: "cadd exact_arith (Fin (rinv + 744 + 196884 * r), Fin 0) (Fin (21493760 * r2), Fin 0)
            = (Fin zr, Fin 0)"
    unfolding zr_def using bnds by (intro exact_cadd; simp)
  have jq: "j_invariant exact_arith c (Some (Fin 0, Fin 2)) = Inr (JComplex (Fin zr, Fin 0))"
    unfolding j_invariant_def option.case Let_def creal_def q_2i [unfolded creal_def] r_def [symmetric]
    by (simp only: q2 i1 i2 m3 i3 m4 i4)
  have zr: "5000 < zr" using bnds by (simp add: zr_def)
  \<comment> \<open>the Weierstrass path on the coefficients\<close>
  define a3 where "a3 = av ^ 3"
  define b2 where "b2 = bv ^ 2"
  define d where "d = - 16 * (4 * a3 + 27 * b2)"
  define jw where "jw = - 1728 * (4 * a3) / d"
  have "(- av) ^ 3 \<le> 8 ^ 3" "(27 / 4) ^ 3 \<le> (- av) ^ 3"
    using ab by (intro power_mono; simp)+
  then have a3: "- 512 \<le> a3" "a3 \<le> - (19683 / 64)"
    by (simp_all add: a3_def power3_eq_cube)
  have "(- bv) ^ 2 \<le> (333 / 100) ^ 2" using ab by (intro power_mono; simp)
  then have b2: "0 \<le> b2" "b2 \<le> 12" by (simp_all add: b2_def power2_eq_square)
  have d: "0 < d" "d \<le> 1000000" using a3 b2 by (simp_all add: d_def)
  have w: "108 \<le> jw" "jw < 150"
    using weierstrass_j_bound [OF e]
    by (simp_all only: jw_def d_def a3_def b2_def av_def bv_def c4_def c6_def)
  note wb = a3 b2 d w
  have f1: "fpow exact_arith (Fin av) 3 = Fin a3"
    unfolding a3_def using a3 [unfolded a3_def] by (intro exact_fpow; linarith)
  have f2: "fpow exact_arith (Fin bv) 2 = Fin b2"
    unfolding b2_def using b2 [unfolded b2_def] by (intro exact_fpow; linarith)
  have f3: "fmul exact_arith (Fin 4) (Fin a3) = Fin (4 * a3)"
    using wb by (intro exact_fmul; simp)
  have f4: "fmul exact_arith (Fin 27) (Fin b2) = Fin (27 * b2)"
    using wb by (intro exact_fmul; simp)
  have f5: "fadd exact_arith (Fin (4 * a3)) (Fin (27 * b2)) = Fin (4 * a3 + 27 * b2)"
    using wb by (intro exact_fadd; simp)
  have f6: "fmul exact_arith (Fin (- 16)) (Fin (4 * a3 + 27 * b2)) = Fin d"
    unfolding d_def using wb by (intro exact_fmul; simp)
  have f7: "fmul exact_arith (Fin (- 1728)) (Fin (4 * a3)) = Fin (- 1728 * (4 * a3))"
    using wb by (intro exact_fmul; simp)
  have f8: "fdiv exact_arith (Fin (- 1728 * (4 * a3))) (Fin d) = Fin jw"
    unfolding jw_def using d w [unfolded jw_def] by (intro exact_fdiv; (linarith | simp))
  have pw: "py_pow exact_arith (Fin av) 3 = Inr (Fin a3)"
    "py_pow exact_arith (Fin bv) 2 = Inr (Fin b2)"
    by (simp_all add: py_pow_def f1 f2)
  have dz: "\<not> is_zero (Fin d)" using d by simp
  have disc: "discriminant exact_arith \<lparr>a = Fin av, b = Fin bv\<rparr> = Inr (Fin d)"
    by (simp add: discriminant_def pw f3 f4 f5 f6)
  have jW: "j_invariant exact_arith \<lparr>a = Fin av, b = Fin bv\<rparr> None = Inr (JReal (Fin jw))"
    unfolding j_invariant_def
    by (simp only: option.case disc sum.case dz if_False EllipticCurve.select_convs pw py_div_def
        f3 f7 f8)
  show ?thesis
    using jq zr params jW w by blast
qed

end
